theory Spec2Isabelle
  imports Main "HOL-Library.Char_ord" "HOL-Library.List_Lexorder" "HOL-Library.AList"
begin

section \<open>The crash reporter: offline report store, channels and watcher\<close>

text \<open>
  The development embeds \<^verbatim>\<open>crashreporter/crashreporter.py\<close> (class \<^verbatim>\<open>CrashReporter\<close>).
  Python exceptions are values of \<open>exn\<close>; a method that can raise returns
  \<open>(exn + 'a) \<times> reporter\<close>: the state is the one at the moment of the raise, since
  what was written to disk and to the logger stays there.
\<close>

subsection \<open>Exceptions, effects and the state of a reporter\<close>

datatype exn = ValueError | TypeError | OSError | IOError | EOFError | FTPError | SMTPException

text \<open>
  The outside world sees the logger calls, the sleeps of the watcher and the calls that
  change the report directory; they are recorded in order.
\<close>

datatype event =
    LogInfo string
  | LogError string exn
  | Sleep
  | Copy2 string string
  | OsRemove string
  | WriteFile string string

datatype thread = Thread string

text \<open>
  \<open>files\<close> is the content of \<^verbatim>\<open>report_dir\<close>: file name and file content, one entry
  per name. The paths of the source are \<^verbatim>\<open>os.path.join(report_dir, name)\<close>; the common
  directory part changes neither their order nor their last two characters (every name
  that matters begins with \<^verbatim>\<open>crashreport\<close>), so the model keeps the names only.
  \<open>smtp\<close> and \<open>ftp\<close> are the two configuration dictionaries, \<open>None\<close> until set up.
  A report directory is taken to be configured, and the disk to accept every write: the
  only file system errors are those of a missing file.
\<close>

record reporter =
  html :: bool
  smtp :: "(string \<times> string) list option"
  ftp :: "(string \<times> string) list option"
  enabled :: bool
  check_interval :: nat
  offline_report_limit :: int
  watcher :: "thread option"
  watcher_enabled :: bool
  files :: "(string \<times> string) list"
  trace :: "event list"

definition emit :: "event \<Rightarrow> reporter \<Rightarrow> reporter" where
  "emit e s = s\<lparr>trace := trace s @ [e]\<rparr>"

subsection \<open>The file system calls on the report directory\<close>

text \<open>\<^verbatim>\<open>os.remove\<close> raises \<^verbatim>\<open>OSError\<close> when the file does not exist.\<close>

definition os_remove :: "string \<Rightarrow> reporter \<Rightarrow> (exn + unit) \<times> reporter" where
  "os_remove path s =
     (if path \<in> set (map fst (files s))
      then (Inr (), emit (OsRemove path) (s\<lparr>files := AList.delete path (files s)\<rparr>))
      else (Inl OSError, s))"

text \<open>\<^verbatim>\<open>shutil.copy2\<close> raises \<^verbatim>\<open>IOError\<close> when the source file does not exist.\<close>

definition copy2 :: "string \<Rightarrow> string \<Rightarrow> reporter \<Rightarrow> (exn + unit) \<times> reporter" where
  "copy2 src dst s =
     (case map_of (files s) src of
        None \<Rightarrow> (Inl IOError, s)
      | Some content \<Rightarrow>
          (Inr (), emit (Copy2 src dst) (s\<lparr>files := AList.update dst content (files s)\<rparr>)))"

text \<open>\<^verbatim>\<open>_write_report\<close>: \<^verbatim>\<open>open(path, 'w')\<close> and write the body, given here as \<open>body\<close>
  (the formatting of the traceback is not part of the model).\<close>

definition write_report :: "string \<Rightarrow> string \<Rightarrow> reporter \<Rightarrow> (exn + unit) \<times> reporter" where
  "write_report path body s =
     (Inr (), emit (WriteFile path body) (s\<lparr>files := AList.update path body (files s)\<rparr>))"

subsection \<open>Report names\<close>

definition digit_char :: "nat \<Rightarrow> char" where
  "digit_char d = ''0123456789'' ! d"

fun decimal :: "nat \<Rightarrow> string" where
  "decimal n = (if n < 10 then [digit_char n] else decimal (n div 10) @ [digit_char (n mod 10)])"

declare decimal.simps [simp del]

text \<open>\<^verbatim>\<open>"%02d" % n\<close>: at least two characters, padded with zeros, the sign counted.\<close>

definition fmt_02d :: "int \<Rightarrow> string" where
  "fmt_02d n =
     (if n < 0 then CHR ''-'' # decimal (nat (- n))
      else if n < 10 then CHR ''0'' # decimal (nat n)
      else decimal (nat n))"

text \<open>\<^verbatim>\<open>report_template = "crashreport%02d.txt"\<close>, applied to a number.\<close>

definition report_template :: "int \<Rightarrow> string" where
  "report_template n = ''crashreport'' @ fmt_02d n @ ''.txt''"

text \<open>
  \<^verbatim>\<open>int(s)\<close> of Python 2 on a string, base 10: white space around the literal is dropped,
  one sign is allowed, then at least one digit and nothing else; otherwise \<^verbatim>\<open>ValueError\<close>.
  The store applies it to the two-character strings \<^verbatim>\<open>report[-2:]\<close> only.
\<close>

definition is_space :: "char \<Rightarrow> bool" where
  "is_space c = (c = CHR '' '' \<or> c = CHR 0x09 \<or> c = CHR 0x0A \<or> c = CHR 0x0B \<or> c = CHR 0x0C \<or> c = CHR 0x0D)"

definition is_digit :: "char \<Rightarrow> bool" where
  "is_digit c = (CHR ''0'' \<le> c \<and> c \<le> CHR ''9'')"

definition digit_val :: "char \<Rightarrow> int" where
  "digit_val c = int (of_char c) - 48"

definition digits_val :: "string \<Rightarrow> int" where
  "digits_val ds = foldl (\<lambda>acc c. 10 * acc + digit_val c) 0 ds"

definition strip :: "string \<Rightarrow> string" where
  "strip s = rev (dropWhile is_space (rev (dropWhile is_space s)))"

definition py_int :: "string \<Rightarrow> exn + int" where
  "py_int s =
     (let t = strip s;
          neg = (t \<noteq> [] \<and> hd t = CHR ''-'');
          ds = (if t \<noteq> [] \<and> (hd t = CHR ''-'' \<or> hd t = CHR ''+'') then tl t else t)
      in if ds \<noteq> [] \<and> list_all is_digit ds
         then Inr (if neg then - digits_val ds else digits_val ds)
         else Inl ValueError)"

text \<open>\<^verbatim>\<open>report[-2:]\<close>\<close>

definition last2 :: "string \<Rightarrow> string" where
  "last2 r = drop (length r - 2) r"

subsection \<open>The report store\<close>

text \<open>\<^verbatim>\<open>_get_offline_reports\<close>: \<^verbatim>\<open>sorted(glob.glob(os.path.join(report_dir, "crashreport*")))\<close>.\<close>

definition is_report :: "string \<Rightarrow> bool" where
  "is_report name = (take 11 name = ''crashreport'')"

definition get_offline_reports :: "reporter \<Rightarrow> string list" where
  "get_offline_reports s = sort (filter is_report (map fst (files s)))"

text \<open>
  The loop of \<^verbatim>\<open>_save_report\<close> over \<^verbatim>\<open>reversed(offline_reports)\<close>: each report is copied
  to the name with the next number. The result is the value of the loop variable
  \<^verbatim>\<open>report\<close> when the loop ends, which the statement after the loop removes.
\<close>

fun shift_reports :: "string list \<Rightarrow> string \<Rightarrow> reporter \<Rightarrow> (exn + string) \<times> reporter" where
  "shift_reports [] report s = (Inr report, s)"
| "shift_reports (r # rs) report s =
     (case py_int (last2 r) of
        Inl e \<Rightarrow> (Inl e, s)
      | Inr n \<Rightarrow>
          (case copy2 r (report_template (n + 1)) s of
             (Inl e, s') \<Rightarrow> (Inl e, s')
           | (Inr u, s') \<Rightarrow> shift_reports rs r s'))"

definition save_report :: "string \<Rightarrow> reporter \<Rightarrow> (exn + unit) \<times> reporter" where
  "save_report body s =
     (let offline_reports = get_offline_reports s in
      if offline_reports \<noteq> [] then
        (case shift_reports (rev offline_reports) [] s of
           (Inl e, s1) \<Rightarrow> (Inl e, s1)
         | (Inr report, s1) \<Rightarrow>
             (case os_remove report s1 of
                (Inl e, s2) \<Rightarrow> (Inl e, s2)
              | (Inr u, s2) \<Rightarrow>
                  if int (length offline_reports) \<ge> offline_report_limit s2 then
                    (case os_remove (report_template (offline_report_limit s2 + 1)) s2 of
                       (Inl e, s3) \<Rightarrow> (Inl e, s3)
                     | (Inr u, s3) \<Rightarrow> write_report (report_template 1) body s3)
                  else write_report (report_template 1) body s2))
      else write_report (report_template 1) body s)"

text \<open>\<^verbatim>\<open>delete_offline_reports\<close>: remove every report of the listing, in order.\<close>

fun remove_all :: "string list \<Rightarrow> reporter \<Rightarrow> (exn + unit) \<times> reporter" where
  "remove_all [] s = (Inr (), s)"
| "remove_all (r # rs) s =
     (case os_remove r s of
        (Inl e, s') \<Rightarrow> (Inl e, s')
      | (Inr u, s') \<Rightarrow> remove_all rs s')"

definition delete_offline_reports :: "reporter \<Rightarrow> (exn + unit) \<times> reporter" where
  "delete_offline_reports s = remove_all (get_offline_reports s) s"

subsection \<open>Construction, enabling and the watcher flag\<close>

text \<open>\<^verbatim>\<open>start_watcher\<close>: with at least one offline report, create and start the thread
  \<^verbatim>\<open>offline_reporter\<close> and set the flag the thread polls.\<close>

definition start_watcher :: "reporter \<Rightarrow> reporter" where
  "start_watcher s =
     (if get_offline_reports s \<noteq> [] then
        (emit (LogInfo ''CrashReporter: Starting watcher.'') s)
          \<lparr>watcher := Some (Thread ''offline_reporter''), watcher_enabled := True\<rparr>
      else s)"

definition stop_watcher :: "reporter \<Rightarrow> reporter" where
  "stop_watcher s =
     (if watcher s \<noteq> None then
        emit (LogInfo ''CrashReporter: Stopping watcher.'') (s\<lparr>watcher_enabled := False\<rparr>)
      else s)"

text \<open>
  \<^verbatim>\<open>__init__\<close> with a report directory: \<open>dir\<close> is \<open>Some\<close> of its content when the
  directory exists, and \<open>None\<close> when it has to be made.
\<close>

definition init :: "(string \<times> string) list option \<Rightarrow> int \<Rightarrow> bool \<Rightarrow> nat \<Rightarrow> reporter" where
  "init dir limit use_html interval =
     (let s = \<lparr>html = use_html, smtp = None, ftp = None, enabled = True,
                check_interval = interval, offline_report_limit = limit,
                watcher = None, watcher_enabled = False, files = [], trace = []\<rparr>
      in case dir of
           Some content \<Rightarrow> start_watcher (s\<lparr>files := content\<rparr>)
         | None \<Rightarrow> s)"

text \<open>\<^verbatim>\<open>setup_smtp\<close> and \<^verbatim>\<open>setup_ftp\<close>: the keyword arguments, updated with the named ones.\<close>

definition setup_smtp ::
  "string \<Rightarrow> string \<Rightarrow> string \<Rightarrow> string \<Rightarrow> string \<Rightarrow> (string \<times> string) list \<Rightarrow> reporter \<Rightarrow> reporter" where
  "setup_smtp host port user passwd recipients kwargs s =
     s\<lparr>smtp := Some (AList.updates [''host'', ''port'', ''user'', ''passwd'', ''recipients'']
                        [host, port, user, passwd, recipients] kwargs)\<rparr>"

definition setup_ftp ::
  "string \<Rightarrow> string \<Rightarrow> string \<Rightarrow> string \<Rightarrow> string \<Rightarrow> string \<Rightarrow> string \<Rightarrow> (string \<times> string) list
     \<Rightarrow> reporter \<Rightarrow> reporter" where
  "setup_ftp host user passwd path port acct timeout kwargs s =
     s\<lparr>ftp := Some (AList.updates [''host'', ''port'', ''user'', ''passwd'', ''path'', ''timeout'', ''acct'']
                       [host, port, user, passwd, path, timeout, acct] kwargs)\<rparr>"

definition enable :: "reporter \<Rightarrow> reporter" where
  "enable s = (emit (LogInfo ''CrashReporter: Enabled'') s)\<lparr>enabled := True\<rparr>"

definition disable :: "reporter \<Rightarrow> reporter" where
  "disable s = stop_watcher ((emit (LogInfo ''CrashReporter: Disabled'') s)\<lparr>enabled := False\<rparr>)"

definition enter :: "reporter \<Rightarrow> reporter" where
  "enter s = enable s"

subsection \<open>The channels\<close>

text \<open>
  What the network does during one delivery attempt is an input of the model:
  \<open>smtp_session\<close> is the exception raised inside the \<^verbatim>\<open>try\<close> block of \<^verbatim>\<open>_sendmail\<close>
  (\<open>None\<close> when every call returns), \<open>ftp_connect\<close> the one raised by
  \<^verbatim>\<open>ftp.connect\<close> or \<^verbatim>\<open>ftp.login\<close>, \<open>ftp_cwd\<close> the one raised by \<^verbatim>\<open>ftp.cwd\<close>, and
  \<open>ftp_stor k\<close> the one raised by \<^verbatim>\<open>ftp.nlst\<close> or \<^verbatim>\<open>ftp.storlines\<close> during upload
  number \<open>k\<close> of the session, counted from 0.
\<close>

record network =
  smtp_session :: "exn option"
  ftp_connect :: "exn option"
  ftp_cwd :: "exn option"
  ftp_stor :: "nat \<Rightarrow> exn option"

text \<open>\<^verbatim>\<open>ftplib.all_errors = (Error, IOError, EOFError)\<close>; socket errors are \<^verbatim>\<open>IOError\<close>s.\<close>

definition ftp_all_errors :: "exn \<Rightarrow> bool" where
  "ftp_all_errors e = (e = FTPError \<or> e = IOError \<or> e = EOFError)"

text \<open>\<^verbatim>\<open>info['host']\<close> in a log line.\<close>

definition host_of :: "(string \<times> string) list \<Rightarrow> string" where
  "host_of info = (case map_of info ''host'' of Some h \<Rightarrow> h | None \<Rightarrow> [])"

definition subject :: string where
  "subject = ''Crash Report''"

definition attachments :: "string list" where
  "attachments = []"

text \<open>
  \<^verbatim>\<open>_sendmail\<close>. The message is built before the \<^verbatim>\<open>try\<close>: subscripting a configuration
  that is \<^verbatim>\<open>None\<close> raises \<^verbatim>\<open>TypeError\<close>, and so does \<^verbatim>\<open>open(attachments, 'rb')\<close>, which is
  given the list, as soon as the list is not empty. Inside the \<^verbatim>\<open>try\<close> every exception
  is caught by \<^verbatim>\<open>except Exception\<close>, logged, and answered with \<^verbatim>\<open>False\<close>.
\<close>

definition sendmail ::
  "string \<Rightarrow> string \<Rightarrow> string list \<Rightarrow> bool \<Rightarrow> network \<Rightarrow> reporter \<Rightarrow> (exn + bool) \<times> reporter" where
  "sendmail subj body atts as_html net s =
     (case smtp s of
        None \<Rightarrow> (Inl TypeError, s)
      | Some info \<Rightarrow>
          if atts \<noteq> [] then (Inl TypeError, s)
          else (case smtp_session net of
                  Some e \<Rightarrow> (Inr False, emit (LogError ''CrashReporter: '' e) s)
                | None \<Rightarrow> (Inr True, s)))"

text \<open>
  \<^verbatim>\<open>_ftp_submit\<close>. Only \<^verbatim>\<open>connect\<close> and \<^verbatim>\<open>login\<close> are inside the \<^verbatim>\<open>try\<close>, which catches
  \<^verbatim>\<open>ftplib.all_errors\<close>, logs, calls \<^verbatim>\<open>stop_watcher\<close> and returns \<^verbatim>\<open>False\<close>. The report is
  then written to \<^verbatim>\<open>ftp_report.txt\<close> in the working directory (not a file of the report
  directory, and not a report name), and \<^verbatim>\<open>cwd\<close>, \<^verbatim>\<open>nlst\<close> and \<^verbatim>\<open>storlines\<close> run outside
  any handler.
\<close>

definition ftp_submit :: "string \<Rightarrow> network \<Rightarrow> reporter \<Rightarrow> (exn + bool) \<times> reporter" where
  "ftp_submit body net s =
     (case ftp s of
        None \<Rightarrow> (Inl TypeError, s)
      | Some info \<Rightarrow>
          (case ftp_connect net of
             Some e \<Rightarrow>
               if ftp_all_errors e then (Inr False, stop_watcher (emit (LogError [] e) s))
               else (Inl e, s)
           | None \<Rightarrow>
               (case ftp_cwd net of
                  Some e \<Rightarrow> (Inl e, s)
                | None \<Rightarrow>
                    (case ftp_stor net 0 of
                       Some e \<Rightarrow> (Inl e, s)
                     | None \<Rightarrow>
                         (Inr True, emit (LogInfo (''CrashReporter: Submission to '' @ host_of info
                                        @ '' successful.'')) s)))))"

text \<open>The uploads of \<^verbatim>\<open>_ftp_send_offline_reports\<close>, one per stored report, \<open>k\<close> counting them.\<close>

fun upload_all :: "string list \<Rightarrow> nat \<Rightarrow> network \<Rightarrow> reporter \<Rightarrow> (exn + unit) \<times> reporter" where
  "upload_all [] k net s = (Inr (), s)"
| "upload_all (r # rs) k net s =
     (case map_of (files s) r of
        None \<Rightarrow> (Inl IOError, s)
      | Some content \<Rightarrow>
          (case ftp_stor net k of
             Some e \<Rightarrow> (Inl e, s)
           | None \<Rightarrow> upload_all rs (Suc k) net s))"

definition ftp_send_offline_reports :: "network \<Rightarrow> reporter \<Rightarrow> (exn + bool) \<times> reporter" where
  "ftp_send_offline_reports net s =
     (case ftp s of
        None \<Rightarrow> (Inl TypeError, s)
      | Some info \<Rightarrow>
          (case ftp_connect net of
             Some e \<Rightarrow>
               if ftp_all_errors e then (Inr False, emit (LogError [] e) s)
               else (Inl e, s)
           | None \<Rightarrow>
               (case ftp_cwd net of
                  Some e \<Rightarrow> (Inl e, s)
                | None \<Rightarrow>
                    (case upload_all (get_offline_reports s) 0 net s of
                       (Inl e, s1) \<Rightarrow> (Inl e, s1)
                     | (Inr u, s1) \<Rightarrow>
                         (Inr True,
                          emit (LogInfo (''CrashReporter: Submission to '' @ host_of info
                                         @ '' successful.'')) s1)))))"

text \<open>
  \<^verbatim>\<open>_smtp_send_offline_reports\<close>: one mail with every stored report. When there is no
  report the function falls off its end and returns Python's \<^verbatim>\<open>None\<close>, here the
  \<open>None\<close> of \<open>bool option\<close>.
\<close>

definition separator :: string where
  "separator = ''-------------------------------------------------'' @ [CHR 0x0A]"

fun offline_body :: "string list \<Rightarrow> string \<Rightarrow> reporter \<Rightarrow> exn + string" where
  "offline_body [] body s = Inr body"
| "offline_body (r # rs) body s =
     (case map_of (files s) r of
        None \<Rightarrow> Inl IOError
      | Some content \<Rightarrow> offline_body rs (body @ content @ separator) s)"

definition smtp_send_offline_reports ::
  "network \<Rightarrow> reporter \<Rightarrow> (exn + bool option) \<times> reporter" where
  "smtp_send_offline_reports net s =
     (let offline_reports = get_offline_reports s in
      if offline_reports \<noteq> [] then
        (case offline_body offline_reports
                (''Here is a list of crash reports that were stored offline.'' @ [CHR 0x0A]
                 @ separator) s of
           Inl e \<Rightarrow> (Inl e, s)
         | Inr body \<Rightarrow>
             (case sendmail subject body [] False net s of
                (Inl e, s1) \<Rightarrow> (Inl e, s1)
              | (Inr great_success, s1) \<Rightarrow>
                  (Inr (Some great_success),
                   if great_success
                   then emit (LogInfo ''CrashReporter: Offline reports sent.'') s1
                   else s1)))
      else (Inr None, s))"

text \<open>\<^verbatim>\<open>great_success |= x\<close>: \<^verbatim>\<open>bool | bool\<close> is the disjunction, \<^verbatim>\<open>bool | None\<close> raises
  \<^verbatim>\<open>TypeError\<close>.\<close>

definition ior :: "bool \<Rightarrow> bool option \<Rightarrow> exn + bool" where
  "ior great_success x = (case x of None \<Rightarrow> Inl TypeError | Some b \<Rightarrow> Inr (great_success \<or> b))"

subsection \<open>Leaving the scope\<close>

text \<open>
  \<^verbatim>\<open>__exit__(etype, evalue, tb)\<close>: \<open>etype\<close> is \<open>None\<close> when the scope ended without an
  exception, \<open>body\<close> is what \<^verbatim>\<open>self.body()\<close> returns. The \<^verbatim>\<open>else\<close> that logs belongs to
  \<^verbatim>\<open>if self._enabled\<close>.
\<close>

definition exit_scope ::
  "string option \<Rightarrow> string \<Rightarrow> network \<Rightarrow> reporter \<Rightarrow> (exn + unit) \<times> reporter" where
  "exit_scope etype body net s =
     (if enabled s then
        (if etype \<noteq> None then
           (case (if smtp s \<noteq> None
                  then (case sendmail subject body attachments (html s) net s of
                          (Inl e, s1) \<Rightarrow> (Inl e, s1)
                        | (Inr r, s1) \<Rightarrow> (ior False (Some r), s1))
                  else (Inr False, s)) of
              (Inl e, s1) \<Rightarrow> (Inl e, s1)
            | (Inr gs1, s1) \<Rightarrow>
                (case (if ftp s1 \<noteq> None
                       then (case ftp_submit body net s1 of
                               (Inl e, s2) \<Rightarrow> (Inl e, s2)
                             | (Inr r, s2) \<Rightarrow> (ior gs1 (Some r), s2))
                       else (Inr gs1, s1)) of
                   (Inl e, s2) \<Rightarrow> (Inl e, s2)
                 | (Inr great_success, s2) \<Rightarrow>
                     if \<not> great_success then save_report body s2 else (Inr (), s2)))
         else (Inr (), s))
      else (Inr (), emit (LogInfo ''CrashReporter: No crashes detected.'') s))"

subsection \<open>The watcher thread\<close>

text \<open>
  One pass of the body of the loop of \<^verbatim>\<open>_watcher_thread\<close> after the flag has been read:
  the log line, then the mail channel, then the transfer channel, each when configured.
\<close>

definition attempt :: "network \<Rightarrow> bool \<Rightarrow> reporter \<Rightarrow> (exn + bool) \<times> reporter" where
  "attempt net great_success s =
     (let s0 = emit (LogInfo ''CrashReporter: Attempting to send offline reports.'') s in
      case (if smtp s0 \<noteq> None
            then (case smtp_send_offline_reports net s0 of
                    (Inl e, s1) \<Rightarrow> (Inl e, s1)
                  | (Inr r, s1) \<Rightarrow> (ior great_success r, s1))
            else (Inr great_success, s0)) of
        (Inl e, s1) \<Rightarrow> (Inl e, s1)
      | (Inr gs1, s1) \<Rightarrow>
          (if ftp s1 \<noteq> None
           then (case ftp_send_offline_reports net s1 of
                   (Inl e, s2) \<Rightarrow> (Inl e, s2)
                 | (Inr r, s2) \<Rightarrow> (ior gs1 (Some r), s2))
           else (Inr gs1, s1)))"

text \<open>
  The \<^verbatim>\<open>while not great_success\<close> loop. \<open>env i\<close> is the network during cycle \<open>i\<close>.
  The loop need not end, so its result is an option: \<open>None\<close> is a loop that runs
  forever. A result \<open>Inr g\<close> is the value of \<^verbatim>\<open>great_success\<close> when the loop is left.
\<close>

partial_function (option) watcher_loop ::
  "(nat \<Rightarrow> network) \<Rightarrow> nat \<Rightarrow> bool \<Rightarrow> reporter \<Rightarrow> ((exn + bool) \<times> reporter) option" where
  "watcher_loop env i great_success s =
     (if great_success then Some (Inr great_success, s)
      else
        (let s1 = emit Sleep s in
         if \<not> watcher_enabled s1 then Some (Inr great_success, s1)
         else (case attempt (env i) great_success s1 of
                 (Inl e, s2) \<Rightarrow> Some (Inl e, s2)
               | (Inr g, s2) \<Rightarrow> watcher_loop env (Suc i) g s2)))"

declare watcher_loop.simps [code]

text \<open>\<^verbatim>\<open>_watcher_thread\<close>; the cycles are numbered from 1.\<close>

definition watcher_thread :: "(nat \<Rightarrow> network) \<Rightarrow> reporter \<Rightarrow> ((exn + unit) \<times> reporter) option" where
  "watcher_thread env s =
     (case watcher_loop env 1 False s of
        None \<Rightarrow> None
      | Some (Inl e, s1) \<Rightarrow> Some (Inl e, s1)
      | Some (Inr great_success, s1) \<Rightarrow>
          (if great_success then
             (case delete_offline_reports s1 of
                (Inl e, s2) \<Rightarrow> Some (Inl e, s2)
              | (Inr u, s2) \<Rightarrow>
                  Some (Inr (), emit (LogInfo ''CrashReporter: Watcher stopped.'') s2))
           else Some (Inr (), emit (LogInfo ''CrashReporter: Watcher stopped.'') s1)))"

subsection \<open>Sequences of store operations\<close>

text \<open>
  A caller that saves and purges, one operation after the other. An operation that
  raises leaves the directory as it was at the raise, and the caller goes on with the
  next operation; the results are collected in order.
\<close>

datatype op = Save string | PurgeAll

fun apply_op :: "op \<Rightarrow> reporter \<Rightarrow> (exn + unit) \<times> reporter" where
  "apply_op (Save body) s = save_report body s"
| "apply_op PurgeAll s = delete_offline_reports s"

fun run_ops :: "op list \<Rightarrow> reporter \<Rightarrow> (exn + unit) list \<times> reporter" where
  "run_ops [] s = ([], s)"
| "run_ops (x # xs) s =
     (case apply_op x s of
        (r, s1) \<Rightarrow> (case run_ops xs s1 of (rs, s2) \<Rightarrow> (r # rs, s2)))"

text \<open>The names of the stored reports are those of the ordinals 1 to their number.\<close>

definition contiguous :: "reporter \<Rightarrow> bool" where
  "contiguous s =
     (get_offline_reports s = map report_template [1 .. int (length (get_offline_reports s))])"

text \<open>A store that holds nothing, or the first report only.\<close>

definition at_most_first :: "reporter \<Rightarrow> bool" where
  "at_most_first s =
     (get_offline_reports s = [] \<or> get_offline_reports s = [''crashreport01.txt''])"

subsection \<open>Reading a trace\<close>

text \<open>
  \<open>sleeps\<close> counts the cycles begun in a stretch of the trace; \<open>logs_more s s'\<close> says
  that \<open>s'\<close> is \<open>s\<close> after some logger calls and nothing else; \<open>same_store\<close> that two
  states agree on the channel configurations and on the report directory.
\<close>

fun is_remove :: "event \<Rightarrow> bool" where
  "is_remove (OsRemove r) = True"
| "is_remove e = False"

definition sleeps :: "event list \<Rightarrow> nat" where
  "sleeps tr = length (filter (\<lambda>e. e = Sleep) tr)"

fun is_log :: "event \<Rightarrow> bool" where
  "is_log (LogInfo m) = True"
| "is_log (LogError m e) = True"
| "is_log e = False"

definition logs_more :: "reporter \<Rightarrow> reporter \<Rightarrow> bool" where
  "logs_more s s' = (\<exists>tr. s' = s\<lparr>trace := trace s @ tr\<rparr> \<and> list_all is_log tr)"

definition same_store :: "reporter \<Rightarrow> reporter \<Rightarrow> bool" where
  "same_store s s' = (smtp s' = smtp s \<and> ftp s' = ftp s \<and> files s' = files s)"

subsection \<open>Example configurations\<close>

text \<open>
  A network on which the mail session and the FTP connection both fail, one on which
  everything succeeds, one whose FTP server accepts the login and then refuses the
  change of directory, and one on which the mail goes out and the FTP connection fails;
  a reporter with both channels set up on a given report directory, capacity 3; and a
  directory with two reports.
\<close>

definition net_down :: network where
  "net_down = \<lparr>smtp_session = Some SMTPException, ftp_connect = Some IOError,
                ftp_cwd = None, ftp_stor = (\<lambda>k. None)\<rparr>"

definition net_up :: network where
  "net_up = \<lparr>smtp_session = None, ftp_connect = None, ftp_cwd = None, ftp_stor = (\<lambda>k. None)\<rparr>"

definition net_no_dir :: network where
  "net_no_dir = \<lparr>smtp_session = None, ftp_connect = None, ftp_cwd = Some FTPError,
                  ftp_stor = (\<lambda>k. None)\<rparr>"

definition net_mail_only :: network where
  "net_mail_only = \<lparr>smtp_session = None, ftp_connect = Some IOError,
                     ftp_cwd = None, ftp_stor = (\<lambda>k. None)\<rparr>"

definition both_channels :: "(string \<times> string) list \<Rightarrow> reporter" where
  "both_channels dir =
     setup_ftp ''ftp.example.org'' ''user'' ''secret'' ''/reports'' ''21'' [] ''5'' []
       (setup_smtp ''smtp.example.org'' ''587'' ''app@example.org'' ''secret'' ''dev@example.org'' []
          (init (Some dir) 3 False 300))"

definition two_reports :: "(string \<times> string) list" where
  "two_reports = [(''crashreport02.txt'', ''older''), (''crashreport01.txt'', ''newer'')]"

section \<open>Properties of the report store\<close>

lemma report_template_1: "report_template 1 = ''crashreport01.txt''"
  by (simp add: report_template_def fmt_02d_def decimal.simps digit_char_def)

lemma is_report_first: "is_report ''crashreport01.txt''"
  by (simp add: is_report_def)

lemma py_int_xt: "py_int (last2 ''crashreport01.txt'') = Inl ValueError"
  by (simp add: last2_def py_int_def strip_def is_space_def is_digit_def)

lemma reports_Nil_iff: "get_offline_reports s = [] \<longleftrightarrow> filter is_report (map fst (files s)) = []"
  unfolding get_offline_reports_def
  by (metis length_0_conv length_sort)

lemma reports_after_write:
  assumes "get_offline_reports s = []" and "is_report name"
  shows "get_offline_reports (snd (write_report name body s)) = [name]"
proof -
  have none: "filter is_report (map fst (files s)) = []"
    using assms(1) by (simp add: reports_Nil_iff)
  then have "name \<notin> set (map fst (files s))"
    using assms(2) by (metis filter_empty_conv)
  then show ?thesis
    using none assms(2)
    by (simp add: write_report_def emit_def get_offline_reports_def update_keys)
qed

lemma set_reports: "set (get_offline_reports s) = {n \<in> set (map fst (files s)). is_report n}"
  by (auto simp: get_offline_reports_def)

lemma save_empty:
  "get_offline_reports s = [] \<Longrightarrow> save_report body s = write_report (report_template 1) body s"
  by (simp add: save_report_def)

lemma save_single:
  "get_offline_reports s = [''crashreport01.txt''] \<Longrightarrow> save_report body s = (Inl ValueError, s)"
  by (simp add: save_report_def py_int_xt)

lemma remove_all_ok:
  "distinct rs \<Longrightarrow> set rs \<subseteq> set (map fst (files s)) \<Longrightarrow>
   remove_all rs s =
     (Inr (), s\<lparr>files := filter (\<lambda>p. fst p \<notin> set rs) (files s),
                trace := trace s @ map OsRemove rs\<rparr>)"
proof (induction rs arbitrary: s)
  case Nil
  then show ?case by simp
next
  case (Cons r rs)
  let ?s1 = "emit (OsRemove r) (s\<lparr>files := AList.delete r (files s)\<rparr>)"
  have step: "os_remove r s = (Inr (), ?s1)"
    using Cons.prems(2) by (simp add: os_remove_def)
  have sub: "set rs \<subseteq> set (map fst (files ?s1))"
    using Cons.prems by (auto simp: emit_def delete_keys)
  have "remove_all rs ?s1 =
     (Inr (), ?s1\<lparr>files := filter (\<lambda>p. fst p \<notin> set rs) (files ?s1),
                trace := trace ?s1 @ map OsRemove rs\<rparr>)"
    using Cons.IH [of ?s1] Cons.prems(1) sub by simp
  moreover have "filter (\<lambda>p. fst p \<notin> set rs) (AList.delete r (files s))
      = filter (\<lambda>p. fst p \<notin> set (r # rs)) (files s)"
    by (auto simp: AList.delete_eq case_prod_beta intro: filter_cong)
  ultimately show ?case
    using step by (simp add: emit_def)
qed

lemma distinct_reports: "distinct (map fst (files s)) \<Longrightarrow> distinct (get_offline_reports s)"
  by (simp add: get_offline_reports_def)

lemma delete_offline_reports_ok:
  assumes "distinct (get_offline_reports s)"
  shows "delete_offline_reports s =
     (Inr (), s\<lparr>files := filter (\<lambda>p. fst p \<notin> set (get_offline_reports s)) (files s),
                trace := trace s @ map OsRemove (get_offline_reports s)\<rparr>)"
  unfolding delete_offline_reports_def
  by (rule remove_all_ok [OF assms]) (auto simp: set_reports)

lemma reports_after_purge:
  "get_offline_reports (s\<lparr>files := filter (\<lambda>p. fst p \<notin> set (get_offline_reports s)) (files s),
                trace := t\<rparr>) = []"
  by (auto simp: reports_Nil_iff set_reports filter_empty_conv)


lemma reports_init_empty: "get_offline_reports (init (Some []) limit h c) = []"
  by (simp add: init_def start_watcher_def get_offline_reports_def)

text \<open>
  Claim C7. Saving on an empty store shifts nothing and evicts nothing: the only call
  on the directory is the write of the new content under the name of ordinal 1, and the
  store then lists exactly that one report, holding the saved content.
\<close>

theorem save_on_empty_store:
  assumes "get_offline_reports s = []"
  shows "save_report body s =
           (Inr (), s\<lparr>files := AList.update ''crashreport01.txt'' body (files s),
                      trace := trace s @ [WriteFile ''crashreport01.txt'' body]\<rparr>)
         \<and> get_offline_reports (snd (save_report body s)) = [''crashreport01.txt'']
         \<and> map_of (files (snd (save_report body s))) ''crashreport01.txt'' = Some body"
proof -
  have eq: "save_report body s = write_report ''crashreport01.txt'' body s"
    using assms by (simp add: save_empty report_template_1)
  have "get_offline_reports (snd (write_report ''crashreport01.txt'' body s)) = [''crashreport01.txt'']"
    using assms is_report_first by (rule reports_after_write)
  then show ?thesis
    unfolding eq by (simp add: write_report_def emit_def update_conv')
qed

theorem save_on_empty_store_witness:
  "get_offline_reports (init (Some [(''notes.txt'', ''n'')]) 3 False 300) = []
   \<and> save_report ''r1'' (init (Some [(''notes.txt'', ''n'')]) 3 False 300) =
       (Inr (), (init (Some [(''notes.txt'', ''n'')]) 3 False 300)
          \<lparr>files := [(''notes.txt'', ''n''), (''crashreport01.txt'', ''r1'')],
           trace := [WriteFile ''crashreport01.txt'' ''r1'']\<rparr>)"
proof -
  have h: "get_offline_reports (init (Some [(''notes.txt'', ''n'')]) 3 False 300) = []"
    by (simp add: init_def start_watcher_def get_offline_reports_def is_report_def)
  show ?thesis
    using h save_on_empty_store [OF h, of "''r1''"]
    by (simp add: init_def start_watcher_def get_offline_reports_def is_report_def)
qed

lemma save_keeps_at_most_first:
  assumes "at_most_first s"
  shows "at_most_first (snd (save_report body s))"
proof (cases "get_offline_reports s = []")
  case True
  then show ?thesis
    using reports_after_write [OF True is_report_first]
    by (simp add: save_empty report_template_1 at_most_first_def)
next
  case False
  then have "get_offline_reports s = [''crashreport01.txt'']"
    using assms by (simp add: at_most_first_def)
  then show ?thesis
    using assms by (simp add: save_single)
qed

lemma purge_keeps_at_most_first:
  assumes "at_most_first s"
  shows "at_most_first (snd (delete_offline_reports s))"
proof -
  have "distinct (get_offline_reports s)"
    using assms by (auto simp: at_most_first_def)
  then show ?thesis
    by (simp add: delete_offline_reports_ok reports_after_purge at_most_first_def)
qed

lemma run_ops_at_most_first:
  "at_most_first s \<Longrightarrow> at_most_first (snd (run_ops ops s))"
proof (induction ops arbitrary: s)
  case Nil
  then show ?case by simp
next
  case (Cons x ops)
  have "at_most_first (snd (apply_op x s))"
    using Cons.prems
    by (cases x) (simp_all add: save_keeps_at_most_first purge_keeps_at_most_first)
  then have "at_most_first (snd (run_ops ops (snd (apply_op x s))))"
    by (rule Cons.IH)
  then show ?case
    by (simp add: split_beta)
qed

text \<open>
  Claim C5. After any sequence of saves and purges that starts on an empty store, the
  stored reports are named by the ordinals 1 to their number, without a gap. (A save on
  a store that already holds \<^verbatim>\<open>crashreport01.txt\<close> raises before it touches the
  directory, so the store never holds more than that one report.)
\<close>

theorem ordinals_contiguous:
  assumes "get_offline_reports s = []"
  shows "contiguous (snd (run_ops ops s))"
proof -
  have "at_most_first s"
    using assms by (simp add: at_most_first_def)
  then have "at_most_first (snd (run_ops ops s))"
    by (rule run_ops_at_most_first)
  then show ?thesis
    by (auto simp: at_most_first_def contiguous_def report_template_1)
qed

theorem ordinals_contiguous_witness:
  "get_offline_reports (init (Some []) 3 False 300) = []
   \<and> contiguous (snd (run_ops [Save ''r1'', PurgeAll, Save ''r2'', Save ''r3'']
                          (init (Some []) 3 False 300)))"
  using ordinals_contiguous [of "init (Some []) 3 False 300"
          "[Save ''r1'', PurgeAll, Save ''r2'', Save ''r3'']"]
  by (simp add: reports_init_empty)

text \<open>
  Claim C8. Purging twice in a row: the first call returns without an exception and
  leaves no report, the second call returns without an exception and changes nothing.
  The names of a directory are distinct.
\<close>

theorem purge_all_idempotent:
  assumes "distinct (map fst (files s))"
  shows "\<exists>s1. delete_offline_reports s = (Inr (), s1)
            \<and> get_offline_reports s1 = []
            \<and> delete_offline_reports s1 = (Inr (), s1)"
proof -
  let ?s1 = "s\<lparr>files := filter (\<lambda>p. fst p \<notin> set (get_offline_reports s)) (files s),
                trace := trace s @ map OsRemove (get_offline_reports s)\<rparr>"
  have first: "delete_offline_reports s = (Inr (), ?s1)"
    using assms by (simp add: delete_offline_reports_ok distinct_reports)
  have empty: "get_offline_reports ?s1 = []"
    by (rule reports_after_purge)
  have "delete_offline_reports ?s1 = (Inr (), ?s1)"
    unfolding delete_offline_reports_def empty by simp
  then show ?thesis
    using first empty by blast
qed

theorem purge_all_idempotent_witness:
  "distinct (map fst (files (both_channels two_reports)))
   \<and> (\<exists>s1. delete_offline_reports (both_channels two_reports) = (Inr (), s1)
            \<and> get_offline_reports s1 = []
            \<and> delete_offline_reports s1 = (Inr (), s1))"
proof -
  have h: "distinct (map fst (files (both_channels two_reports)))" by code_simp
  show ?thesis
    using h purge_all_idempotent [OF h] by blast
qed

text \<open>
  Claim C1, on the code. With a capacity of 3, the saves of \<^verbatim>\<open>r1\<close>, \<^verbatim>\<open>r2\<close>, \<^verbatim>\<open>r3\<close>
  and \<^verbatim>\<open>r4\<close> on an empty store: the first one writes \<^verbatim>\<open>crashreport01.txt\<close>; each of
  the others raises \<^verbatim>\<open>ValueError\<close>, because the last two characters of that name are
  \<^verbatim>\<open>xt\<close>, and the store is left with one report, the oldest content \<^verbatim>\<open>r1\<close>.
\<close>

theorem scenario_A_second_save_raises:
  "run_ops [Save ''r1'', Save ''r2'', Save ''r3'', Save ''r4''] (init (Some []) 3 False 300) =
     ([Inr (), Inl ValueError, Inl ValueError, Inl ValueError],
      (init (Some []) 3 False 300)
        \<lparr>files := [(''crashreport01.txt'', ''r1'')],
         trace := [WriteFile ''crashreport01.txt'' ''r1'']\<rparr>)"
proof -
  let ?s0 = "init (Some []) 3 False 300"
  let ?s1 = "?s0\<lparr>files := [(''crashreport01.txt'', ''r1'')],
                 trace := [WriteFile ''crashreport01.txt'' ''r1'']\<rparr>"
  have first: "save_report ''r1'' ?s0 = (Inr (), ?s1)"
    by (simp add: save_empty reports_init_empty report_template_1 write_report_def emit_def)
       (simp add: init_def start_watcher_def get_offline_reports_def)
  have "get_offline_reports ?s1 = [''crashreport01.txt'']"
    by (simp add: get_offline_reports_def is_report_def)
  then have again: "save_report body ?s1 = (Inl ValueError, ?s1)" for body
    by (rule save_single)
  show ?thesis
    by (simp add: first again)
qed

section \<open>Properties of the channels and of the watcher\<close>

lemma logs_more_refl: "logs_more s s"
  unfolding logs_more_def by (rule exI [of _ "[]"]) simp

lemma logs_more_emit: "is_log e \<Longrightarrow> logs_more s (emit e s)"
  unfolding logs_more_def emit_def by (rule exI [of _ "[e]"]) simp

lemma logs_more_trans: "logs_more s s1 \<Longrightarrow> logs_more s1 s2 \<Longrightarrow> logs_more s s2"
  unfolding logs_more_def
proof (elim exE conjE)
  fix tr1 tr2
  assume "s1 = s\<lparr>trace := trace s @ tr1\<rparr>" "list_all is_log tr1"
     "s2 = s1\<lparr>trace := trace s1 @ tr2\<rparr>" "list_all is_log tr2"
  then have "s2 = s\<lparr>trace := trace s @ (tr1 @ tr2)\<rparr> \<and> list_all is_log (tr1 @ tr2)"
    by simp
  then show "\<exists>tr. s2 = s\<lparr>trace := trace s @ tr\<rparr> \<and> list_all is_log tr"
    by blast
qed

lemma logs_more_same: "logs_more s s' \<Longrightarrow> same_store s s'"
  by (auto simp: logs_more_def same_store_def)

lemma logs_more_flag: "logs_more s s' \<Longrightarrow> watcher_enabled s' = watcher_enabled s"
  by (auto simp: logs_more_def)

lemma same_store_refl: "same_store s s"
  by (simp add: same_store_def)

lemma same_store_trans: "same_store s s1 \<Longrightarrow> same_store s1 s2 \<Longrightarrow> same_store s s2"
  by (simp add: same_store_def)

lemma same_store_sym: "same_store s s1 \<Longrightarrow> same_store s1 s"
  by (simp add: same_store_def)

lemma upload_all_state: "snd (upload_all rs k net s) = s"
  by (induction rs arbitrary: k) (auto split: option.splits)

lemma upload_all_files:
  "files s' = files s \<Longrightarrow> fst (upload_all rs k net s') = fst (upload_all rs k net s)"
  by (induction rs arbitrary: k) (auto split: option.splits)

lemma offline_body_files:
  "files s' = files s \<Longrightarrow> offline_body rs b s' = offline_body rs b s"
  by (induction rs arbitrary: b) (auto split: option.splits)

lemma reports_files: "files s' = files s \<Longrightarrow> get_offline_reports s' = get_offline_reports s"
  by (simp add: get_offline_reports_def)

lemma sendmail_logs: "logs_more s (snd (sendmail subj b atts h net s))"
  by (simp add: sendmail_def logs_more_refl logs_more_emit split: option.splits)

lemma sendmail_result:
  "smtp s' = smtp s \<Longrightarrow> fst (sendmail subj b atts h net s') = fst (sendmail subj b atts h net s)"
  by (simp add: sendmail_def split: option.splits)

lemma smtp_offline_logs: "logs_more s (snd (smtp_send_offline_reports net s))"
proof -
  have "logs_more s (snd (sendmail subj b [] False net s))" for subj b
    by (rule sendmail_logs)
  moreover have "logs_more s (emit (LogInfo m) (snd (sendmail subj b [] False net s)))" for subj b m
    using sendmail_logs [of s subj b "[]" False net]
      logs_more_emit [of "LogInfo m" "snd (sendmail subj b [] False net s)"]
    by (auto intro: logs_more_trans)
  ultimately show ?thesis
    by (simp add: smtp_send_offline_reports_def Let_def logs_more_refl split_beta
             split: sum.splits)
qed

lemma smtp_offline_result:
  assumes "same_store s s'"
  shows "fst (smtp_send_offline_reports net s') = fst (smtp_send_offline_reports net s)"
proof -
  have f: "files s' = files s" and m: "smtp s' = smtp s"
    using assms by (simp_all add: same_store_def)
  show ?thesis
    using sendmail_result [OF m]
    by (simp add: smtp_send_offline_reports_def Let_def reports_files [OF f]
          offline_body_files [OF f] split_beta split: sum.splits)
qed

lemma ftp_offline_logs: "logs_more s (snd (ftp_send_offline_reports net s))"
proof -
  have "snd (upload_all rs 0 net s) = s" for rs
    by (rule upload_all_state)
  then show ?thesis
    by (simp add: ftp_send_offline_reports_def logs_more_refl logs_more_emit split_beta
             split: option.splits sum.splits)
qed

lemma ftp_offline_result:
  assumes "same_store s s'"
  shows "fst (ftp_send_offline_reports net s') = fst (ftp_send_offline_reports net s)"
proof -
  have f: "files s' = files s" and m: "ftp s' = ftp s"
    using assms by (simp_all add: same_store_def)
  show ?thesis
    using upload_all_files [OF f]
    by (simp add: ftp_send_offline_reports_def m reports_files [OF f] split_beta
          split: option.splits sum.splits)
qed


lemma attempt_logs: "logs_more s (snd (attempt net g s))"
proof -
  let ?s0 = "emit (LogInfo ''CrashReporter: Attempting to send offline reports.'') s"
  let ?M = "smtp_send_offline_reports net ?s0"
  have h0: "logs_more s ?s0"
    by (simp add: logs_more_emit)
  have h1: "logs_more s (snd ?M)"
    using h0 smtp_offline_logs by (rule logs_more_trans)
  have h2: "logs_more s (snd (ftp_send_offline_reports net (snd ?M)))"
    using h1 ftp_offline_logs by (rule logs_more_trans)
  have h3: "logs_more s (snd (ftp_send_offline_reports net ?s0))"
    using h0 ftp_offline_logs by (rule logs_more_trans)
  show ?thesis
    using h0 h1 h2 h3
    by (simp add: attempt_def Let_def split_beta split: sum.splits)
qed

lemma attempt_result:
  assumes "same_store s s'"
  shows "fst (attempt net g s') = fst (attempt net g s)"
proof -
  let ?s0 = "emit (LogInfo ''CrashReporter: Attempting to send offline reports.'') s"
  let ?t0 = "emit (LogInfo ''CrashReporter: Attempting to send offline reports.'') s'"
  let ?M = "smtp_send_offline_reports net ?s0"
  let ?N = "smtp_send_offline_reports net ?t0"
  have e0: "same_store ?s0 ?t0"
    using assms by (simp add: same_store_def emit_def)
  have m: "fst ?N = fst ?M"
    using e0 by (rule smtp_offline_result)
  have "same_store ?s0 (snd ?M)" "same_store ?t0 (snd ?N)"
    by (simp_all add: logs_more_same smtp_offline_logs)
  then have e1: "same_store (snd ?M) (snd ?N)"
    using e0 by (simp add: same_store_def)
  have f1: "fst (ftp_send_offline_reports net (snd ?N)) = fst (ftp_send_offline_reports net (snd ?M))"
    using e1 by (rule ftp_offline_result)
  have f0: "fst (ftp_send_offline_reports net ?t0) = fst (ftp_send_offline_reports net ?s0)"
    using e0 by (rule ftp_offline_result)
  have c: "smtp ?t0 = smtp ?s0" "ftp ?t0 = ftp ?s0" "ftp (snd ?N) = ftp (snd ?M)"
    using e0 e1 by (simp_all add: same_store_def)
  show ?thesis
    using m f0 f1 c
    by (simp add: attempt_def Let_def split_beta split: sum.splits)
qed

lemma watcher_loop_converges:
  assumes "watcher_enabled s"
    and "i \<le> K"
    and "\<forall>j. i \<le> j \<and> j < K \<longrightarrow> fst (attempt (env j) False s) = Inr False"
    and "fst (attempt (env K) False s) = Inr True"
  shows "\<exists>tr s'. watcher_loop env i False s = Some (Inr True, s')
           \<and> s' = s\<lparr>trace := trace s @ tr\<rparr>
           \<and> sleeps tr = Suc (K - i) \<and> filter is_remove tr = []"
  using assms
proof (induction "K - i" arbitrary: i s)
  case 0
  let ?s1 = "emit Sleep s"
  have iK: "i = K" using 0 by simp
  have on: "watcher_enabled ?s1"
    using "0.prems"(1) by (simp add: emit_def)
  have same: "same_store s ?s1"
    by (simp add: same_store_def emit_def)
  obtain s2 where a: "attempt (env K) False ?s1 = (Inr True, s2)"
    using attempt_result [OF same, of "env K" False] "0.prems"(4)
    by (metis prod.collapse)
  have "logs_more ?s1 s2"
    using attempt_logs [of ?s1 "env K" False] a by simp
  then obtain tr where tr: "s2 = ?s1\<lparr>trace := trace ?s1 @ tr\<rparr>" "list_all is_log tr"
    by (auto simp: logs_more_def)
  have nolog: "filter is_remove tr = [] \<and> filter (\<lambda>e. e = Sleep) tr = []"
    using tr(2) by (induction tr) (auto elim: is_log.elims)
  have "watcher_loop env i False s = Some (Inr True, s2)"
    by (subst watcher_loop.simps, simp add: on a iK Let_def)
       (subst watcher_loop.simps, simp)
  moreover have "s2 = s\<lparr>trace := trace s @ (Sleep # tr)\<rparr>"
    using tr(1) by (simp add: emit_def)
  moreover have "sleeps (Sleep # tr) = Suc (K - i) \<and> filter is_remove (Sleep # tr) = []"
    using nolog iK by (simp add: sleeps_def)
  ultimately show ?case by blast
next
  case (Suc n)
  let ?s1 = "emit Sleep s"
  have lt: "i < K" and n: "n = K - Suc i" using Suc.hyps(2) by simp_all
  have on: "watcher_enabled ?s1"
    using Suc.prems(1) by (simp add: emit_def)
  have same: "same_store s ?s1"
    by (simp add: same_store_def emit_def)
  have "fst (attempt (env i) False s) = Inr False"
    using Suc.prems(3) lt by simp
  then obtain s2 where a: "attempt (env i) False ?s1 = (Inr False, s2)"
    using attempt_result [OF same, of "env i" False]
    by (metis prod.collapse)
  have lm: "logs_more ?s1 s2"
    using attempt_logs [of ?s1 "env i" False] a by simp
  then obtain tr where tr: "s2 = ?s1\<lparr>trace := trace ?s1 @ tr\<rparr>" "list_all is_log tr"
    by (auto simp: logs_more_def)
  have nolog: "filter is_remove tr = [] \<and> filter (\<lambda>e. e = Sleep) tr = []"
    using tr(2) by (induction tr) (auto elim: is_log.elims)
  have same2: "same_store s s2"
    using same logs_more_same [OF lm] by (rule same_store_trans)
  have on2: "watcher_enabled s2"
    using on logs_more_flag [OF lm] by simp
  have p3: "\<forall>j. Suc i \<le> j \<and> j < K \<longrightarrow> fst (attempt (env j) False s2) = Inr False"
    using Suc.prems(3) attempt_result [OF same2] by simp
  have p4: "fst (attempt (env K) False s2) = Inr True"
    using Suc.prems(4) attempt_result [OF same2] by simp
  have "Suc i \<le> K" using lt by simp
  from Suc.hyps(1) [OF n on2 this p3 p4]
  obtain tr' s' where rec: "watcher_loop env (Suc i) False s2 = Some (Inr True, s')"
      "s' = s2\<lparr>trace := trace s2 @ tr'\<rparr>" "sleeps tr' = Suc (K - Suc i)"
      "filter is_remove tr' = []"
    by blast
  have "watcher_loop env i False s = Some (Inr True, s')"
    by (subst watcher_loop.simps) (simp add: on a rec(1) Let_def)
  moreover have "s' = s\<lparr>trace := trace s @ (Sleep # tr @ tr')\<rparr>"
    using tr(1) rec(2) by (simp add: emit_def)
  moreover have "sleeps (Sleep # tr @ tr') = Suc (K - i)
      \<and> filter is_remove (Sleep # tr @ tr') = []"
    using nolog rec(3,4) lt by (simp add: sleeps_def)
  ultimately show ?case by blast
qed

text \<open>
  The watcher is enabled, the cycles 1 to \<open>K - 1\<close> end with \<^verbatim>\<open>great_success\<close> false
  and cycle \<open>K\<close> ends with it true. Then the thread returns: it has slept \<open>K\<close> times
  without removing a file, then it has removed each stored report once, in the order of
  the listing, and logged that it stopped; no report is left.
\<close>

lemma watcher_purges_once_after_first_success:
  assumes "watcher_enabled s"
    and "distinct (map fst (files s))"
    and "1 \<le> K"
    and "\<forall>j. 1 \<le> j \<and> j < K \<longrightarrow> fst (attempt (env j) False s) = Inr False"
    and "fst (attempt (env K) False s) = Inr True"
  shows "\<exists>tr s'. watcher_thread env s = Some (Inr (), s')
           \<and> get_offline_reports s' = []
           \<and> trace s' = trace s @ tr @ map OsRemove (get_offline_reports s)
                          @ [LogInfo ''CrashReporter: Watcher stopped.'']
           \<and> sleeps tr = K
           \<and> filter is_remove tr = []"
proof -
  obtain tr s1 where loop: "watcher_loop env 1 False s = Some (Inr True, s1)"
      and s1: "s1 = s\<lparr>trace := trace s @ tr\<rparr>"
      and n: "sleeps tr = Suc (K - 1)" and r: "filter is_remove tr = []"
    using watcher_loop_converges [OF assms(1) assms(3) assms(4) assms(5)] by blast
  have f: "files s1 = files s"
    using s1 by simp
  have reps: "get_offline_reports s1 = get_offline_reports s"
    using f by (rule reports_files)
  have "distinct (get_offline_reports s1)"
    using assms(2) f by (simp add: distinct_reports)
  then have purge: "delete_offline_reports s1 =
      (Inr (), s1\<lparr>files := filter (\<lambda>p. fst p \<notin> set (get_offline_reports s1)) (files s1),
                  trace := trace s1 @ map OsRemove (get_offline_reports s1)\<rparr>)"
    by (rule delete_offline_reports_ok)
  let ?s2 = "s1\<lparr>files := filter (\<lambda>p. fst p \<notin> set (get_offline_reports s1)) (files s1),
                 trace := trace s1 @ map OsRemove (get_offline_reports s1)\<rparr>"
  let ?s3 = "emit (LogInfo ''CrashReporter: Watcher stopped.'') ?s2"
  have run: "watcher_thread env s = Some (Inr (), ?s3)"
    unfolding watcher_thread_def loop by (simp add: purge)
  have "get_offline_reports ?s2 = []"
    by (rule reports_after_purge)
  then have empty: "get_offline_reports ?s3 = []"
    by (simp add: get_offline_reports_def emit_def)
  have tr3: "trace ?s3 = trace s @ tr @ map OsRemove (get_offline_reports s)
                          @ [LogInfo ''CrashReporter: Watcher stopped.'']"
    using s1 reps by (simp add: emit_def)
  have "sleeps tr = K"
    using n assms(3) by simp
  then show ?thesis
    using run empty tr3 r by blast
qed

text \<open>
  The value of \<^verbatim>\<open>great_success\<close> after one cycle, from what the two bulk deliveries
  return on the state the cycle starts in: the disjunction of the results of the
  configured channels, or the first exception.
\<close>

lemma attempt_from_channels:
  "fst (attempt net g s) =
     (case (if smtp s \<noteq> None
            then (case fst (smtp_send_offline_reports net s) of
                    Inl e \<Rightarrow> Inl e
                  | Inr r \<Rightarrow> ior g r)
            else Inr g) of
        Inl e \<Rightarrow> Inl e
      | Inr g1 \<Rightarrow>
          (if ftp s \<noteq> None
           then (case fst (ftp_send_offline_reports net s) of
                   Inl e \<Rightarrow> Inl e
                 | Inr r \<Rightarrow> ior g1 (Some r))
           else Inr g1))"
proof -
  let ?s0 = "emit (LogInfo ''CrashReporter: Attempting to send offline reports.'') s"
  let ?M = "smtp_send_offline_reports net ?s0"
  have e0: "same_store s ?s0"
    by (simp add: same_store_def emit_def)
  have m: "fst ?M = fst (smtp_send_offline_reports net s)"
    using e0 by (rule smtp_offline_result)
  have "same_store ?s0 (snd ?M)"
    by (simp add: logs_more_same smtp_offline_logs)
  then have e1: "same_store s (snd ?M)"
    using e0 by (simp add: same_store_def)
  have f1: "fst (ftp_send_offline_reports net (snd ?M)) = fst (ftp_send_offline_reports net s)"
    using e1 by (rule ftp_offline_result)
  have f0: "fst (ftp_send_offline_reports net ?s0) = fst (ftp_send_offline_reports net s)"
    using e0 by (rule ftp_offline_result)
  have c: "smtp ?s0 = smtp s" "ftp ?s0 = ftp s" "ftp (snd ?M) = ftp s"
    using e0 e1 by (simp_all add: same_store_def)
  show ?thesis
    using m f0 f1 c
    by (simp add: attempt_def Let_def split_beta split: sum.splits)
qed

text \<open>
  The same in terms of the channels: in every cycle before \<open>K\<close> each configured
  channel returns \<^verbatim>\<open>False\<close>; in cycle \<open>K\<close> each configured channel returns a truth value
  and one of them returns \<^verbatim>\<open>True\<close>.
\<close>

lemma watcher_converges_on_channel_results:
  assumes "watcher_enabled s"
    and "distinct (map fst (files s))"
    and "1 \<le> K"
    and before: "\<forall>j. 1 \<le> j \<and> j < K \<longrightarrow>
           (smtp s \<noteq> None \<longrightarrow> fst (smtp_send_offline_reports (env j) s) = Inr (Some False))
         \<and> (ftp s \<noteq> None \<longrightarrow> fst (ftp_send_offline_reports (env j) s) = Inr False)"
    and mail: "smtp s \<noteq> None \<longrightarrow> fst (smtp_send_offline_reports (env K) s) = Inr (Some mail_ok)"
    and transfer: "ftp s \<noteq> None \<longrightarrow> fst (ftp_send_offline_reports (env K) s) = Inr ftp_ok"
    and one: "(smtp s \<noteq> None \<and> mail_ok) \<or> (ftp s \<noteq> None \<and> ftp_ok)"
  shows "\<exists>tr s'. watcher_thread env s = Some (Inr (), s')
           \<and> get_offline_reports s' = []
           \<and> trace s' = trace s @ tr @ map OsRemove (get_offline_reports s)
                          @ [LogInfo ''CrashReporter: Watcher stopped.'']
           \<and> sleeps tr = K
           \<and> filter is_remove tr = []"
proof -
  have h4: "\<forall>j. 1 \<le> j \<and> j < K \<longrightarrow> fst (attempt (env j) False s) = Inr False"
    using before by (simp add: attempt_from_channels ior_def)
  have h5: "fst (attempt (env K) False s) = Inr True"
    using mail transfer one by (auto simp: attempt_from_channels ior_def)
  show ?thesis
    using assms(1) assms(2) assms(3) h4 h5
    by (rule watcher_purges_once_after_first_success)
qed

text \<open>
  Two reports, both channels: everything fails in cycle 1, and in cycle 2 the mail goes
  out while the FTP connection fails. The success of the mail channel alone ends the
  watcher with the purge.
\<close>

lemma mail_alone_ends_the_watcher:
  "\<exists>tr s'. watcher_thread (\<lambda>j. if j < 2 then net_down else net_mail_only)
              (both_channels two_reports) = Some (Inr (), s')
           \<and> get_offline_reports s' = []
           \<and> trace s' = trace (both_channels two_reports) @ tr
                 @ map OsRemove (get_offline_reports (both_channels two_reports))
                 @ [LogInfo ''CrashReporter: Watcher stopped.'']
           \<and> sleeps tr = 2
           \<and> filter is_remove tr = []"
proof -
  let ?env = "\<lambda>j::nat. if j < 2 then net_down else net_mail_only"
  have h1: "watcher_enabled (both_channels two_reports)" by code_simp
  have h2: "distinct (map fst (files (both_channels two_reports)))" by code_simp
  have h3: "(1::nat) \<le> 2" by simp
  have d1: "fst (smtp_send_offline_reports net_down (both_channels two_reports)) = Inr (Some False)"
    by code_simp
  have d2: "fst (ftp_send_offline_reports net_down (both_channels two_reports)) = Inr False"
    by code_simp
  have u1: "fst (smtp_send_offline_reports net_mail_only (both_channels two_reports)) = Inr (Some True)"
    by code_simp
  have u2: "fst (ftp_send_offline_reports net_mail_only (both_channels two_reports)) = Inr False"
    by code_simp
  have c: "smtp (both_channels two_reports) \<noteq> None" by code_simp
  have before: "\<forall>j. 1 \<le> j \<and> j < 2 \<longrightarrow>
           (smtp (both_channels two_reports) \<noteq> None \<longrightarrow>
              fst (smtp_send_offline_reports (?env j) (both_channels two_reports)) = Inr (Some False))
         \<and> (ftp (both_channels two_reports) \<noteq> None \<longrightarrow>
              fst (ftp_send_offline_reports (?env j) (both_channels two_reports)) = Inr False)"
    using d1 d2 by simp
  have mail: "smtp (both_channels two_reports) \<noteq> None \<longrightarrow>
      fst (smtp_send_offline_reports (?env 2) (both_channels two_reports)) = Inr (Some True)"
    using u1 by simp
  have transfer: "ftp (both_channels two_reports) \<noteq> None \<longrightarrow>
      fst (ftp_send_offline_reports (?env 2) (both_channels two_reports)) = Inr False"
    using u2 by simp
  have one: "(smtp (both_channels two_reports) \<noteq> None \<and> True)
      \<or> (ftp (both_channels two_reports) \<noteq> None \<and> False)"
    using c by simp
  show ?thesis
    using watcher_converges_on_channel_results [OF h1 h2 h3 before mail transfer one]
    by simp
qed

text \<open>
  Claim C6, on the code. Two reports, both channels, the watcher started by the
  constructor. In cycle 1 the bulk mail delivery succeeds; the FTP server then accepts
  the login and refuses \<^verbatim>\<open>cwd\<close>, which \<^verbatim>\<open>_ftp_send_offline_reports\<close> calls outside its
  handler. The exception ends the thread: no report is removed, both are still stored,
  and \<^verbatim>\<open>Watcher stopped.\<close> is not logged.
\<close>

theorem watcher_dies_after_mail_success:
  "fst (smtp_send_offline_reports net_no_dir (both_channels two_reports)) = Inr (Some True)
   \<and> watcher_thread (\<lambda>j. net_no_dir) (both_channels two_reports) =
       Some (Inl FTPError,
             (both_channels two_reports)
               \<lparr>trace := trace (both_channels two_reports)
                   @ [Sleep,
                      LogInfo ''CrashReporter: Attempting to send offline reports.'',
                      LogInfo ''CrashReporter: Offline reports sent.'']\<rparr>)
   \<and> files (both_channels two_reports) = two_reports
   \<and> get_offline_reports (both_channels two_reports)
       = [''crashreport01.txt'', ''crashreport02.txt'']"
  by code_simp

text \<open>
  Claim C9. With the mail channel set up and no report in the store, the bulk mail
  delivery returns \<^verbatim>\<open>None\<close>, and the first cycle of an enabled watcher raises
  \<^verbatim>\<open>TypeError\<close> at \<^verbatim>\<open>great_success |= None\<close>: the thread ends there, after its
  sleep and its log line.
\<close>

theorem watcher_cycle_on_empty_store_raises:
  assumes "smtp s \<noteq> None"
    and "get_offline_reports s = []"
    and "watcher_enabled s"
  shows "smtp_send_offline_reports net s = (Inr None, s)
         \<and> watcher_thread env s =
             Some (Inl TypeError,
                   emit (LogInfo ''CrashReporter: Attempting to send offline reports.'')
                     (emit Sleep s))"
proof -
  let ?s1 = "emit Sleep s"
  let ?s2 = "emit (LogInfo ''CrashReporter: Attempting to send offline reports.'') ?s1"
  have bulk: "smtp_send_offline_reports net s = (Inr None, s)" for net
    using assms(2) by (simp add: smtp_send_offline_reports_def)
  have "get_offline_reports ?s2 = []"
    using assms(2) by (simp add: get_offline_reports_def emit_def)
  then have "smtp_send_offline_reports (env 1) ?s2 = (Inr None, ?s2)"
    by (simp add: smtp_send_offline_reports_def)
  moreover have "smtp ?s2 \<noteq> None"
    using assms(1) by (simp add: emit_def)
  ultimately have "attempt (env 1) False ?s1 = (Inl TypeError, ?s2)"
    by (simp add: attempt_def Let_def ior_def)
  moreover have "watcher_enabled ?s1"
    using assms(3) by (simp add: emit_def)
  ultimately have loop: "watcher_loop env 1 False s = Some (Inl TypeError, ?s2)"
    by (subst watcher_loop.simps) (simp add: Let_def)
  show ?thesis
    unfolding watcher_thread_def loop using bulk by simp
qed

theorem watcher_cycle_on_empty_store_raises_witness:
  "smtp ((both_channels [])\<lparr>watcher_enabled := True\<rparr>) \<noteq> None
   \<and> get_offline_reports ((both_channels [])\<lparr>watcher_enabled := True\<rparr>) = []
   \<and> watcher_enabled ((both_channels [])\<lparr>watcher_enabled := True\<rparr>)
   \<and> fst (the (watcher_thread (\<lambda>j. net_up) ((both_channels [])\<lparr>watcher_enabled := True\<rparr>)))
       = Inl TypeError"
proof -
  let ?s = "(both_channels [])\<lparr>watcher_enabled := True\<rparr>"
  have h1: "smtp ?s \<noteq> None" by code_simp
  have h2: "get_offline_reports ?s = []" by code_simp
  have h3: "watcher_enabled ?s" by simp
  show ?thesis
    using h1 h2 watcher_cycle_on_empty_store_raises [OF h1 h2 h3, of net_up "\<lambda>j. net_up"]
    by simp
qed

text \<open>
  Claim C10. When \<^verbatim>\<open>connect\<close> or \<^verbatim>\<open>login\<close> fails in \<^verbatim>\<open>_ftp_submit\<close>, the function
  returns \<^verbatim>\<open>False\<close> and has called \<^verbatim>\<open>stop_watcher\<close>: with a watcher thread in place the
  flag is cleared, and the loop of the thread, at its next poll, is left without an
  attempt.
\<close>

theorem ftp_submit_connect_failure_stops_watcher:
  assumes "ftp s \<noteq> None"
    and "ftp_connect net = Some e"
    and "ftp_all_errors e"
    and "watcher s \<noteq> None"
  shows "fst (ftp_submit body net s) = Inr False
         \<and> snd (ftp_submit body net s) = stop_watcher (emit (LogError [] e) s)
         \<and> \<not> watcher_enabled (snd (ftp_submit body net s))
         \<and> trace (snd (ftp_submit body net s)) =
             trace s @ [LogError [] e, LogInfo ''CrashReporter: Stopping watcher.'']
         \<and> watcher_loop env i False (snd (ftp_submit body net s)) =
             Some (Inr False, emit Sleep (snd (ftp_submit body net s)))"
proof -
  let ?s' = "emit (LogInfo ''CrashReporter: Stopping watcher.'')
               ((emit (LogError [] e) s)\<lparr>watcher_enabled := False\<rparr>)"
  have "watcher (emit (LogError [] e) s) \<noteq> None"
    using assms(4) by (simp add: emit_def)
  then have run: "ftp_submit body net s = (Inr False, ?s')"
    using assms(1-3) by (auto simp: ftp_submit_def stop_watcher_def)
  have off: "\<not> watcher_enabled ?s'"
    by (simp add: emit_def)
  then have "\<not> watcher_enabled (emit Sleep ?s')"
    by (simp add: emit_def)
  then have "watcher_loop env i False ?s' = Some (Inr False, emit Sleep ?s')"
    by (subst watcher_loop.simps) (simp add: Let_def)
  then show ?thesis
    using off assms(4) by (simp add: run) (simp add: emit_def stop_watcher_def)
qed

theorem ftp_submit_connect_failure_stops_watcher_witness:
  "ftp (both_channels two_reports) \<noteq> None
   \<and> ftp_connect net_down = Some IOError
   \<and> ftp_all_errors IOError
   \<and> watcher (both_channels two_reports) \<noteq> None
   \<and> watcher_enabled (both_channels two_reports)
   \<and> fst (ftp_submit ''r1'' net_down (both_channels two_reports)) = Inr False
   \<and> \<not> watcher_enabled (snd (ftp_submit ''r1'' net_down (both_channels two_reports)))"
proof -
  have h1: "ftp (both_channels two_reports) \<noteq> None" by code_simp
  have h2: "ftp_connect net_down = Some IOError" by code_simp
  have h3: "ftp_all_errors IOError" by code_simp
  have h4: "watcher (both_channels two_reports) \<noteq> None" by code_simp
  have h5: "watcher_enabled (both_channels two_reports)" by code_simp
  show ?thesis
    using h1 h2 h3 h4 h5
      ftp_submit_connect_failure_stops_watcher [OF h1 h2 h3 h4, of "''r1''" "\<lambda>j. net_down" 1]
    by blast
qed






text \<open>
  What the handlers do catch. Mail: an exception raised inside the SMTP session of
  \<^verbatim>\<open>_sendmail\<close> is logged and answered with \<^verbatim>\<open>False\<close>. Transfer: an exception of
  \<^verbatim>\<open>ftplib.all_errors\<close> raised by \<^verbatim>\<open>connect\<close> or \<^verbatim>\<open>login\<close> in \<^verbatim>\<open>_ftp_submit\<close> is logged
  and answered with \<^verbatim>\<open>False\<close>, after \<^verbatim>\<open>stop_watcher\<close>.
\<close>

lemma channel_session_errors_caught:
  "(smtp s \<noteq> None \<and> smtp_session net = Some e \<longrightarrow>
      sendmail subj body attachments as_html net s =
        (Inr False, emit (LogError ''CrashReporter: '' e) s))
   \<and> (ftp s \<noteq> None \<and> ftp_connect net = Some e' \<and> ftp_all_errors e' \<longrightarrow>
      ftp_submit body net s = (Inr False, stop_watcher (emit (LogError [] e') s)))"
  by (auto simp: sendmail_def attachments_def ftp_submit_def)

text \<open>
  Claim C3, on the code. After a successful login, an exception raised by \<^verbatim>\<open>ftp.cwd\<close>,
  or by \<^verbatim>\<open>ftp.nlst\<close> or \<^verbatim>\<open>ftp.storlines\<close>, is outside the handler of \<^verbatim>\<open>_ftp_submit\<close>: it
  is not logged and not answered with \<^verbatim>\<open>False\<close>, it leaves \<^verbatim>\<open>_ftp_submit\<close> with the state
  unchanged. It then leaves \<^verbatim>\<open>__exit__\<close> as well, also when the mail channel has just
  failed, before the report is saved: the report directory is as it was.
\<close>

theorem ftp_errors_after_login_propagate:
  "ftp_submit body (net\<lparr>ftp_connect := None, ftp_cwd := Some e\<rparr>) (s\<lparr>ftp := Some info\<rparr>)
     = (Inl e, s\<lparr>ftp := Some info\<rparr>)
   \<and> ftp_submit body (net\<lparr>ftp_connect := None, ftp_cwd := None, ftp_stor := (\<lambda>k. Some e)\<rparr>)
         (s\<lparr>ftp := Some info\<rparr>)
     = (Inl e, s\<lparr>ftp := Some info\<rparr>)
   \<and> fst (exit_scope (Some etype) body
           (net\<lparr>smtp_session := Some e1, ftp_connect := None, ftp_cwd := Some e\<rparr>)
           (s\<lparr>enabled := True, ftp := Some info\<rparr>)) = Inl e
   \<and> files (snd (exit_scope (Some etype) body
           (net\<lparr>smtp_session := Some e1, ftp_connect := None, ftp_cwd := Some e\<rparr>)
           (s\<lparr>enabled := True, ftp := Some info\<rparr>))) = files s
   \<and> fst (exit_scope (Some etype) body
           (net\<lparr>smtp_session := Some e1, ftp_connect := None, ftp_cwd := None,
                ftp_stor := (\<lambda>k. Some e)\<rparr>)
           (s\<lparr>enabled := True, ftp := Some info\<rparr>)) = Inl e
   \<and> files (snd (exit_scope (Some etype) body
           (net\<lparr>smtp_session := Some e1, ftp_connect := None, ftp_cwd := None,
                ftp_stor := (\<lambda>k. Some e)\<rparr>)
           (s\<lparr>enabled := True, ftp := Some info\<rparr>))) = files s"
  by (cases "smtp s")
     (simp_all add: ftp_submit_def exit_scope_def sendmail_def attachments_def ior_def emit_def)

text \<open>
  Claim C4, on the code. With reporting enabled, a scope exit without a failure returns
  with the state unchanged: nothing is logged. The line \<^verbatim>\<open>No crashes detected.\<close> is
  logged when reporting is disabled, whether or not the scope failed.
\<close>

theorem exit_without_failure_is_silent:
  "exit_scope None body net (s\<lparr>enabled := True\<rparr>) = (Inr (), s\<lparr>enabled := True\<rparr>)
   \<and> exit_scope etype body net (s\<lparr>enabled := False\<rparr>) =
       (Inr (), emit (LogInfo ''CrashReporter: No crashes detected.'') (s\<lparr>enabled := False\<rparr>))"
  by (simp add: exit_scope_def)

end
